theory Spec2Isabelle
  imports Main "HOL-Library.Word" "HOL-Library.Sublist"
begin

unbundle bit_operations_syntax

section \<open>Common types\<close>

type_synonym byte = "8 word"
type_synonym uint32 = "32 word"

text \<open>
  The error codes the sources name (\<^verbatim>\<open>ErrorCode::...\<close> in \<^verbatim>\<open>pdfgen.cpp\<close>,
  \<^verbatim>\<open>RETERR(...)\<close> in \<^verbatim>\<open>pdfcommon.cpp\<close>).
\<close>

datatype ErrorCode =
    NoError
  | DynamicError
  | NoPages
  | CouldNotOpenFile
  | FileWriteError
  | NotASCII
  | BadUtf8

section \<open>The document writer: \<^verbatim>\<open>PdfGen::write\<close>\<close>

text \<open>
  \<^verbatim>\<open>write\<close> talks to the operating system through \<^verbatim>\<open>fopen\<close>,
  \<^verbatim>\<open>PdfDocument::write_to_file\<close>, \<^verbatim>\<open>fflush\<close>, \<^verbatim>\<open>fsync\<close>,
  \<^verbatim>\<open>fclose\<close> and \<^verbatim>\<open>rename\<close>. Whether each of them succeeds is decided outside
  the function, so the outcomes are an input of the model (\<open>io_env\<close>), and the calls the
  function makes are its output, in the order it makes them (\<open>sys_call list\<close>).
\<close>

datatype write_outcome = WriteOk | ThrowsStdException | ThrowsOther

record io_env =
  fopen_ok :: bool
  write_to_file_outcome :: write_outcome
  fflush_ok :: bool
  fsync_ok :: bool
  fclose_ok :: bool
  rename_ok :: bool

datatype sys_call =
    Fopen string
  | WriteToFile string
  | Fflush string
  | Fsync string
  | Fclose string
  | Rename string string
  | Perror
  | FprintfStderr

subsection \<open>The generator and its document\<close>

text \<open>
  Exceptions and aborts of the C++ code are values: \<open>RuntimeError\<close> is
  \<^verbatim>\<open>std::runtime_error\<close> with its message, \<open>ErrnoError\<close> the same exception
  carrying \<^verbatim>\<open>strerror(errno)\<close>, \<open>OutOfRange\<close> the \<^verbatim>\<open>std::out_of_range\<close> of
  \<^verbatim>\<open>vector::at\<close>, \<open>AssertionFailed\<close> a failed \<^verbatim>\<open>assert\<close>,
  \<open>DivisionByZero\<close> the trap of an integer division by zero, and
  \<open>FatalContractViolation\<close> the fatal report of a programming error that the spec
  prescribes for the use of a closed scope.
\<close>

datatype exn =
    RuntimeError string
  | ErrnoError
  | OutOfRange
  | AssertionFailed
  | DivisionByZero
  | FatalContractViolation

text \<open>
  The context types the sources name; \<open>A4PDF_Other_Context\<close> stands for any
  enumerator of the (absent) declaration that they do not name.
\<close>

datatype A4PDF_Draw_Context_Type =
    A4PDF_Page_Context
  | A4PDF_Color_Tiling_Pattern_Context
  | A4PDF_Other_Context nat

text \<open>
  Modelled from the spec: the class \<^verbatim>\<open>PdfDrawContext\<close> is absent from the sources.
  The spec describes a scope as an accumulator of operator text and of the resources
  the operators use, tagged with its role (the constructor calls in \<^verbatim>\<open>pdfgen.cpp\<close>,
  lines 157-166, pass the role when the context is made), with two states: open, and
  closed once it is handed to the document, after which "the scope object itself is no
  longer usable".
\<close>

record PdfDrawContext =
  context_type :: A4PDF_Draw_Context_Type
  resource_dict :: string
  command_stream :: string
  closed :: bool

record SerializedContext =
  dict :: string
  commands :: string

text \<open>
  Modelled from the spec: \<^verbatim>\<open>PdfDrawContext::draw_context_type\<close>, the role tag,
  fixed when the scope is made.
\<close>

definition draw_context_type :: "PdfDrawContext \<Rightarrow> A4PDF_Draw_Context_Type" where
  "draw_context_type ctx = context_type ctx"

text \<open>
  Modelled from the spec: \<^verbatim>\<open>PdfDrawContext::build_resource_dict\<close> and
  \<^verbatim>\<open>PdfDrawContext::get_command_stream\<close>, the two parts of the accumulated state
  of an open scope. Using a closed scope is the fatal contract violation of the spec
  ("attempting to reuse a closed scope is a programming error reported as a fatal
  contract violation").
\<close>

definition build_resource_dict :: "PdfDrawContext \<Rightarrow> exn + string" where
  "build_resource_dict ctx =
     (if closed ctx then Inl FatalContractViolation else Inr (resource_dict ctx))"

definition get_command_stream :: "PdfDrawContext \<Rightarrow> exn + string" where
  "get_command_stream ctx =
     (if closed ctx then Inl FatalContractViolation else Inr (command_stream ctx))"

text \<open>
  Modelled from the spec: \<^verbatim>\<open>PdfDrawContext::serialize\<close>, which "serializes its
  accumulated state", the resource dictionary and the command stream, and which a closed
  scope refuses like every other use.
\<close>

definition serialize :: "PdfDrawContext \<Rightarrow> exn + SerializedContext" where
  "serialize ctx =
     (if closed ctx then Inl FatalContractViolation
      else Inr \<lparr>dict = resource_dict ctx, commands = command_stream ctx\<rparr>)"

text \<open>
  Modelled from the spec: \<^verbatim>\<open>PdfDrawContext::clear\<close>, the last thing
  \<^verbatim>\<open>add_page\<close> does to the scope, after its content is registered. The spec has no
  operation of this name; it says that a scope handed to the document becomes closed,
  immutable and no longer usable, and that is the transition this call makes. What is
  left in the accumulator cannot be observed, since every use of a closed scope is
  refused.
\<close>

definition clear :: "PdfDrawContext \<Rightarrow> PdfDrawContext" where
  "clear ctx = ctx\<lparr>closed := True\<rparr>"

text \<open>
  The dictionary \<^verbatim>\<open>add_pattern\<close> formats: the fields that vary, in the order of the
  format arguments (the bounding box starts at \<^verbatim>\<open>0 0\<close>). \<open>'d\<close> is the type of
  \<^verbatim>\<open>double\<close> values, which these functions only store and pass on.
\<close>

record 'd pattern_dict =
  bbox_w :: 'd
  bbox_h :: 'd
  xstep :: 'd
  ystep :: 'd
  pattern_resources :: string
  pattern_length :: nat

record 'd ColorPatternBuilder =
  pctx :: PdfDrawContext
  cp_w :: 'd
  cp_h :: 'd

text \<open>
  The rasterization engine's view of a loaded font: \<^verbatim>\<open>FT_HAS_KERNING\<close>,
  \<^verbatim>\<open>units_per_EM\<close>, \<^verbatim>\<open>FT_Get_Char_Index\<close>, and \<^verbatim>\<open>FT_Get_Kerning\<close>, which
  returns its error code and the \<^verbatim>\<open>x\<close> of the kerning vector.
\<close>

record FT_Face =
  has_kerning :: bool
  units_per_EM :: "16 word"
  get_char_index :: "uint32 \<Rightarrow> nat"
  get_kerning :: "nat \<Rightarrow> nat \<Rightarrow> int \<times> int"

text \<open>A registered font object and the font it points to; a built-in font has no face.\<close>

record FontInfo =
  font_index_tmp :: int

record FontThingy =
  face :: "FT_Face option"

text \<open>
  Modelled from the spec: \<^verbatim>\<open>PdfDocument\<close> is absent from the sources; the spec
  describes append-only registries of pages, patterns and fonts.
\<close>

record 'd PdfDocument =
  pages :: "SerializedContext list"
  patterns :: "('d pattern_dict \<times> string) list"
  font_objects :: "FontInfo list"
  fonts :: "FontThingy list"

record 'd PdfGen =
  ofilename :: string
  pdoc :: "'d PdfDocument"

definition tempfname :: "'d PdfGen \<Rightarrow> string" where
  "tempfname g = ofilename g @ ''~''"

text \<open>
  The stream calls carry the path the stream was opened on (\<^verbatim>\<open>ofile\<close> is the
  stream of \<^verbatim>\<open>tempfname\<close>). Every early \<^verbatim>\<open>return\<close> of the source is one
  branch, with the calls made up to it; the two \<^verbatim>\<open>catch\<close> blocks print, close and
  return alike.
\<close>

definition PdfGen_write :: "io_env \<Rightarrow> 'd PdfGen \<Rightarrow> ErrorCode \<times> sys_call list" where
  "PdfGen_write env g =
    (let t = tempfname g in
     if length (pages (pdoc g)) = 0 then (NoPages, [])
     else if \<not> fopen_ok env then (CouldNotOpenFile, [Fopen t, Perror])
     else if write_to_file_outcome env \<noteq> WriteOk then
       (DynamicError, [Fopen t, WriteToFile t, FprintfStderr, Fclose t])
     else if \<not> fflush_ok env then
       (DynamicError, [Fopen t, WriteToFile t, Fflush t, Perror, Fclose t])
     else if \<not> fsync_ok env then
       (FileWriteError, [Fopen t, WriteToFile t, Fflush t, Fsync t, Perror, Fclose t])
     else if \<not> fclose_ok env then
       (FileWriteError, [Fopen t, WriteToFile t, Fflush t, Fsync t, Fclose t, Perror])
     else if \<not> rename_ok env then
       (FileWriteError,
        [Fopen t, WriteToFile t, Fflush t, Fsync t, Fclose t, Rename t (ofilename g), Perror])
     else
       (NoError,
        [Fopen t, WriteToFile t, Fflush t, Fsync t, Fclose t, Rename t (ofilename g)]))"

subsection \<open>What the calls do to the file system\<close>

text \<open>
  A file system has names and files: \<open>links\<close> gives the file (its inode number) that a
  path names, the first entry for a path counting, and \<open>content\<close> gives the bytes of a
  file. Two paths can name one file (a hard link, or a symbolic link that resolves to
  it). \<open>read_file\<close> is what a path holds: the bytes of its file, or nothing.
\<close>

record filesystem =
  links :: "(string \<times> nat) list"
  content :: "nat \<Rightarrow> byte list"

definition inode_of :: "filesystem \<Rightarrow> string \<Rightarrow> nat option" where
  "inode_of fs p = map_of (links fs) p"


definition fresh_inode :: "filesystem \<Rightarrow> nat" where
  "fresh_inode fs = Suc (fold max (map snd (links fs)) 0)"


text \<open>
  The effect of a call is the one POSIX gives it. A successful \<^verbatim>\<open>fopen(p, "wb")\<close>
  truncates the file that \<open>p\<close> names, whatever other names that file has, or makes a new
  empty file when \<open>p\<close> names none. \<^verbatim>\<open>write_to_file\<close> leaves in the file of the stream
  whatever bytes it managed to write (\<open>bytes\<close>, an input of the model: the whole document
  when it succeeds, any part of it when it throws); no name changes between the open and
  the write, so the file of the stream is the one its path names. A successful \<^verbatim>\<open>rename(a, b)\<close>
  makes \<open>b\<close> name the file of \<open>a\<close> and removes the name \<open>a\<close>, and does nothing when
  both already name the same file. A failed call changes nothing; flushing, syncing,
  closing and printing do not change which bytes a path holds.
\<close>

fun effect :: "io_env \<Rightarrow> byte list \<Rightarrow> filesystem \<Rightarrow> sys_call \<Rightarrow> filesystem" where
  "effect env bytes fs (Fopen p) =
     (if fopen_ok env then
        (case inode_of fs p of
           Some i \<Rightarrow> fs\<lparr>content := (content fs)(i := [])\<rparr>
         | None \<Rightarrow>
             fs\<lparr>links := (p, fresh_inode fs) # links fs,
                content := (content fs)(fresh_inode fs := [])\<rparr>)
      else fs)"
| "effect env bytes fs (WriteToFile p) =
     (case inode_of fs p of
        Some i \<Rightarrow> fs\<lparr>content := (content fs)(i := bytes)\<rparr>
      | None \<Rightarrow> fs)"
| "effect env bytes fs (Rename a b) =
     (if rename_ok env then
        (case inode_of fs a of
           None \<Rightarrow> fs
         | Some i \<Rightarrow>
             if inode_of fs b = Some i then fs
             else fs\<lparr>links := (b, i) # filter (\<lambda>l. fst l \<noteq> a) (links fs)\<rparr>)
      else fs)"
| "effect env bytes fs c = fs"

definition run_calls :: "io_env \<Rightarrow> byte list \<Rightarrow> filesystem \<Rightarrow> sys_call list \<Rightarrow> filesystem" where
  "run_calls env bytes fs cs = foldl (effect env bytes) fs cs"



text \<open>Every step before the rename succeeded.\<close>

definition all_ok :: "io_env \<Rightarrow> bool" where
  "all_ok env \<longleftrightarrow>
     fopen_ok env \<and> write_to_file_outcome env = WriteOk \<and> fflush_ok env \<and>
     fsync_ok env \<and> fclose_ok env"

section \<open>Closing a scope: \<^verbatim>\<open>PdfGen::add_page\<close> and \<^verbatim>\<open>PdfGen::add_pattern\<close>\<close>

datatype PageId = PageId int

datatype PatternId = PatternId int

text \<open>
  Modelled from the spec: \<^verbatim>\<open>PdfDocument::add_page\<close> and
  \<^verbatim>\<open>PdfDocument::add_pattern\<close> are absent from the sources. The registries are
  append-only; line 123 of \<^verbatim>\<open>pdfgen.cpp\<close> takes the new page to be the last one.
\<close>

definition PdfDocument_add_page ::
  "'d PdfDocument \<Rightarrow> string \<Rightarrow> string \<Rightarrow> 'd PdfDocument" where
  "PdfDocument_add_page doc d c = doc\<lparr>pages := pages doc @ [\<lparr>dict = d, commands = c\<rparr>]\<rparr>"

definition PdfDocument_add_pattern ::
  "'d PdfDocument \<Rightarrow> 'd pattern_dict \<Rightarrow> string \<Rightarrow> PatternId \<times> 'd PdfDocument" where
  "PdfDocument_add_pattern doc buf c =
     (PatternId (int (length (patterns doc))), doc\<lparr>patterns := patterns doc @ [(buf, c)]\<rparr>)"

text \<open>
  \<^verbatim>\<open>add_page\<close> changes the document and the context it is given, so it returns both;
  the \<^verbatim>\<open>throw\<close> leaves both as they were, and so does a failure inside a call on
  the context, which ends the function there. The page id is
  \<^verbatim>\<open>(int32_t)pdoc.pages.size() - 1\<close>.
\<close>

definition PdfGen_add_page ::
  "'d PdfGen \<Rightarrow> PdfDrawContext \<Rightarrow> exn + (PageId \<times> 'd PdfGen \<times> PdfDrawContext)" where
  "PdfGen_add_page g ctx =
    (if draw_context_type ctx \<noteq> A4PDF_Page_Context then
       Inl (RuntimeError ''Tried to pass a non-page context to add_page.'')
     else
       (case serialize ctx of
          Inl e \<Rightarrow> Inl e
        | Inr sc \<Rightarrow>
            (let doc = PdfDocument_add_page (pdoc g) (dict sc) (commands sc);
                 ctx' = clear ctx
             in Inr (PageId (sint (word_of_nat (length (pages doc)) :: 32 word) - 1),
                     g\<lparr>pdoc := doc\<rparr>, ctx'))))"

definition PdfGen_add_pattern ::
  "'d PdfGen \<Rightarrow> 'd ColorPatternBuilder \<Rightarrow> exn + (PatternId \<times> 'd PdfGen)" where
  "PdfGen_add_pattern g cp =
    (if draw_context_type (pctx cp) \<noteq> A4PDF_Color_Tiling_Pattern_Context then
       Inl (RuntimeError ''Tried to pass an incorrect pattern type to add_pattern.'')
     else
       (case build_resource_dict (pctx cp) of
          Inl e \<Rightarrow> Inl e
        | Inr resources \<Rightarrow>
            (case get_command_stream (pctx cp) of
               Inl e \<Rightarrow> Inl e
             | Inr cmds \<Rightarrow>
                 (let buf = \<lparr>bbox_w = cp_w cp, bbox_h = cp_h cp, xstep = cp_w cp,
                             ystep = cp_h cp, pattern_resources = resources,
                             pattern_length = length cmds\<rparr>
                  in case PdfDocument_add_pattern (pdoc g) buf cmds of
                       (pid, doc) \<Rightarrow> Inr (pid, g\<lparr>pdoc := doc\<rparr>)))))"

text \<open>
  \<^verbatim>\<open>guarded_page_context\<close>, \<^verbatim>\<open>new_page_draw_context\<close> and
  \<^verbatim>\<open>new_color_pattern_builder\<close> make fresh contexts of the role they name.
\<close>

definition new_page_draw_context :: PdfDrawContext where
  "new_page_draw_context =
     \<lparr>context_type = A4PDF_Page_Context, resource_dict = [], command_stream = [],
      closed = False\<rparr>"

definition new_color_pattern_builder :: "'d \<Rightarrow> 'd \<Rightarrow> 'd ColorPatternBuilder" where
  "new_color_pattern_builder pw ph =
     \<lparr>pctx = \<lparr>context_type = A4PDF_Color_Tiling_Pattern_Context, resource_dict = [],
               command_stream = [], closed = False\<rparr>,
      cp_w = pw, cp_h = ph\<rparr>"

section \<open>Measuring text: \<^verbatim>\<open>PdfGen::utf8_text_width\<close>\<close>

text \<open>
  One call of \<^verbatim>\<open>iconv\<close> with a four-byte output buffer. It either fails (returns
  \<^verbatim>\<open>-1\<close> with an \<^verbatim>\<open>errno\<close> other than \<^verbatim>\<open>E2BIG\<close>) or comes back, with success or
  with \<^verbatim>\<open>E2BIG\<close>, having left a value in \<^verbatim>\<open>codepoint\<close> and the unread rest of the
  input in \<^verbatim>\<open>in_ptr\<close>/\<^verbatim>\<open>in_bytes\<close>.
\<close>

datatype iconv_result = IconvFailed | IconvReturned uint32 "byte list"

text \<open>
  What the function takes from outside this file: whether \<^verbatim>\<open>iconv_open\<close> succeeds,
  the converter, \<^verbatim>\<open>PdfGen::glyph_advance\<close> (declared elsewhere, a parameter here) and
  the conversion of an \<^verbatim>\<open>int\<close> to a \<^verbatim>\<open>double\<close>. Widths have the type \<open>'d\<close>, of
  which only \<open>0\<close> and \<open>+\<close> are used and nothing is assumed: the model performs the
  additions the code performs, in its order.
\<close>

record 'd text_env =
  iconv_open_ok :: bool
  iconv :: "byte list \<Rightarrow> iconv_result"
  glyph_advance :: "int \<Rightarrow> 'd \<Rightarrow> uint32 \<Rightarrow> 'd option"
  int_to_double :: "int \<Rightarrow> 'd"

text \<open>\<^verbatim>\<open>vector::at\<close> with an index converted to \<^verbatim>\<open>size_t\<close>: out of range throws.\<close>

definition at_index :: "'a list \<Rightarrow> int \<Rightarrow> 'a option" where
  "at_index xs i = (if 0 \<le> i \<and> i < int (length xs) then Some (xs ! nat i) else None)"

text \<open>Division of \<^verbatim>\<open>int\<close> in C truncates towards zero.\<close>

definition c_div :: "int \<Rightarrow> int \<Rightarrow> int" where
  "c_div a b = sgn a * sgn b * (\<bar>a\<bar> div \<bar>b\<bar>)"

text \<open>The kerning block of the loop body (lines 203-216).\<close>

definition kerning_adjust ::
  "('d::plus) text_env \<Rightarrow> FT_Face \<Rightarrow> uint32 \<Rightarrow> uint32 \<Rightarrow> 'd \<Rightarrow> exn + 'd" where
  "kerning_adjust env fc previous_codepoint codepoint wd =
    (if has_kerning fc \<and> previous_codepoint \<noteq> - 1 then
       (let index_left = get_char_index fc previous_codepoint;
            index_right = get_char_index fc codepoint
        in case get_kerning fc index_left index_right of
             (ec, kerning_x) \<Rightarrow>
               if ec \<noteq> 0 then Inl (RuntimeError ''Getting kerning data failed.'')
               else if kerning_x \<noteq> 0 then
                 (if units_per_EM fc = 0 then Inl DivisionByZero
                  else Inr (wd + int_to_double env
                              (c_div (sint (word_of_int kerning_x :: 32 word))
                                     (uint (units_per_EM fc)))))
               else Inr wd)
     else Inr wd)"

text \<open>
  The \<^verbatim>\<open>while(in_bytes > 0)\<close> loop. Nothing in the code bounds it: it ends when the
  converter has eaten the input. A run that never ends has the value \<open>None\<close>.
\<close>

partial_function (option) width_loop ::
  "('d::plus) text_env \<Rightarrow> FT_Face \<Rightarrow> int \<Rightarrow> 'd \<Rightarrow> uint32 \<Rightarrow> byte list \<Rightarrow> 'd \<Rightarrow> (exn + 'd) option"
  where
  "width_loop env fc fid pointsize previous_codepoint in_buf wd =
    (if length in_buf > 0 then
       (case iconv env in_buf of
          IconvFailed \<Rightarrow> Some (Inl ErrnoError)
        | IconvReturned codepoint rest \<Rightarrow>
            (case kerning_adjust env fc previous_codepoint codepoint wd of
               Inl e \<Rightarrow> Some (Inl e)
             | Inr wd1 \<Rightarrow>
                 (case glyph_advance env fid pointsize codepoint of
                    None \<Rightarrow> Some (Inl AssertionFailed)
                  | Some bob \<Rightarrow> width_loop env fc fid pointsize codepoint rest (wd1 + bob))))
     else Some (Inr wd))"

declare width_loop.simps [code]

text \<open>
  The text is the bytes of the C string before its terminator. The checks come in the
  order of the source: the converter, the two \<^verbatim>\<open>at\<close> lookups (inner first), the face.
  The line that \<^verbatim>\<open>printf\<close> writes to standard output when the face has kerning is
  left out. The method is \<^verbatim>\<open>const\<close>: it returns a width and no new generator.
\<close>

definition utf8_text_width ::
  "('d::{zero,plus}) text_env \<Rightarrow> 'd PdfGen \<Rightarrow> byte list \<Rightarrow> int \<Rightarrow> 'd \<Rightarrow> (exn + 'd) option" where
  "utf8_text_width env g utf8_text fid pointsize =
    (if \<not> iconv_open_ok env then Some (Inl ErrnoError)
     else case at_index (font_objects (pdoc g)) fid of
       None \<Rightarrow> Some (Inl OutOfRange)
     | Some fo \<Rightarrow>
       (case at_index (fonts (pdoc g)) (font_index_tmp fo) of
          None \<Rightarrow> Some (Inl OutOfRange)
        | Some ft \<Rightarrow>
          (case face ft of
             None \<Rightarrow>
               Some (Inl (RuntimeError
                 ''Tried to use builtin font to render UTF-8. They only support ASCII.''))
           | Some fc \<Rightarrow> width_loop env fc fid pointsize (- 1) utf8_text 0)))"

text \<open>
  \<open>resolves_to g fid ft\<close>: the two \<^verbatim>\<open>at\<close> lookups of \<^verbatim>\<open>utf8_text_width\<close>
  succeed for the handle \<open>fid\<close> and end at the registry entry \<open>ft\<close>.
\<close>

definition resolves_to :: "'d PdfGen \<Rightarrow> int \<Rightarrow> FontThingy \<Rightarrow> bool" where
  "resolves_to g fid ft \<longleftrightarrow>
     (case at_index (font_objects (pdoc g)) fid of
        None \<Rightarrow> False
      | Some fo \<Rightarrow> at_index (fonts (pdoc g)) (font_index_tmp fo) = Some ft)"

text \<open>
  \<open>iconv_decodes env bs cps\<close>: called again and again on what is left of \<open>bs\<close>, the
  converter leaves the codepoints \<open>cps\<close>, one per call, and eats the whole input.
\<close>

fun iconv_decodes :: "'d text_env \<Rightarrow> byte list \<Rightarrow> uint32 list \<Rightarrow> bool" where
  "iconv_decodes env bs [] \<longleftrightarrow> bs = []"
| "iconv_decodes env bs (c # cs) \<longleftrightarrow>
     bs \<noteq> [] \<and>
     (case iconv env bs of
        IconvFailed \<Rightarrow> False
      | IconvReturned c' rest \<Rightarrow> c' = c \<and> iconv_decodes env rest cs)"

section \<open>The codepoint decoder: \<^verbatim>\<open>CodepointIterator::extract_one_codepoint\<close>\<close>

text \<open>
  The buffer \<^verbatim>\<open>buf\<close> is a pointer in C; the model gives the function the bytes that
  may be read from it on. What a call can do is one of four things: return a value, call
  \<^verbatim>\<open>std::abort\<close>, fail the \<^verbatim>\<open>assert\<close> of \<^verbatim>\<open>unpack_one\<close>, or read a byte
  beyond the buffer, which the C code does not guard against and the model reports as
  \<open>OutOfBounds\<close>.
\<close>

datatype 'a outcome = Returned 'a | Aborted | AssertFailed | OutOfBounds

record UtfDecodeStep =
  byte1_data_mask :: uint32
  num_subsequent_bytes :: uint32

record CharInfo =
  codepoint :: uint32
  byte_count :: uint32

definition byte_at :: "byte list \<Rightarrow> nat \<Rightarrow> byte option" where
  "byte_at buf i = (if i < length buf then Some (buf ! i) else None)"

text \<open>
  The \<^verbatim>\<open>for\<close> loop of \<^verbatim>\<open>unpack_one\<close>, with its counter \<open>i\<close> and bound \<open>n\<close>:
  shift, read the next byte, check the assertion, or in the six payload bits.
\<close>

function unpack_loop :: "byte list \<Rightarrow> nat \<Rightarrow> nat \<Rightarrow> uint32 \<Rightarrow> uint32 outcome" where
  "unpack_loop valid_utf8 n i unpacked =
    (if i < n then
       (let unpacked1 = push_bit 6 unpacked
        in case byte_at valid_utf8 (1 + i) of
             None \<Rightarrow> OutOfBounds
           | Some b \<Rightarrow>
               (let subsequent = ucast b :: uint32
                in if unpacked1 AND 0x3F \<noteq> 0 then AssertFailed
                   else unpack_loop valid_utf8 n (i + 1)
                          (unpacked1 OR (subsequent AND 0x3F))))
     else Returned unpacked)"
  by pat_completeness auto
termination
  by (relation "measure (\<lambda>(valid_utf8, n, i, unpacked). n - i)") auto

declare unpack_loop.simps [simp del]

definition unpack_one :: "byte list \<Rightarrow> UtfDecodeStep \<Rightarrow> uint32 outcome" where
  "unpack_one valid_utf8 par =
    (case byte_at valid_utf8 0 of
       None \<Rightarrow> OutOfBounds
     | Some b \<Rightarrow>
         unpack_loop valid_utf8 (unat (num_subsequent_bytes par)) 0
           ((ucast b :: uint32) AND byte1_data_mask par))"

text \<open>The last line of \<^verbatim>\<open>extract_one_codepoint\<close>, for the three multi-byte branches.\<close>

definition char_info :: "byte list \<Rightarrow> UtfDecodeStep \<Rightarrow> CharInfo outcome" where
  "char_info buf par =
    (case unpack_one buf par of
       Returned u \<Rightarrow> Returned \<lparr>codepoint = u, byte_count = 1 + num_subsequent_bytes par\<rparr>
     | Aborted \<Rightarrow> Aborted
     | AssertFailed \<Rightarrow> AssertFailed
     | OutOfBounds \<Rightarrow> OutOfBounds)"

definition extract_one_codepoint :: "byte list \<Rightarrow> CharInfo outcome" where
  "extract_one_codepoint buf =
    (case byte_at buf 0 of
       None \<Rightarrow> OutOfBounds
     | Some b \<Rightarrow>
        (let code = ucast b :: uint32 in
         if code < 0x80 then Returned \<lparr>codepoint = code, byte_count = 1\<rparr>
         else if code AND 0xE0 = 0xC0 then
           char_info buf \<lparr>byte1_data_mask = 0x1F, num_subsequent_bytes = 1\<rparr>
         else if code AND 0xF0 = 0xE0 then
           char_info buf \<lparr>byte1_data_mask = 0xF, num_subsequent_bytes = 2\<rparr>
         else if code AND 0xF8 = 0xF0 then
           char_info buf \<lparr>byte1_data_mask = 0x7, num_subsequent_bytes = 3\<rparr>
         else Aborted))"

text \<open>
  Modelled from the spec: the iterator that applies the decoder again and again
  (\<^verbatim>\<open>CodepointIterator\<close>, declared in a header that is absent from the sources). It
  decodes at the front of what is left, moves on by the consumed-byte count, and ends
  when nothing is left; the first failure of a step is the result. Nothing is assumed
  about its termination: a run that never ends has the value \<open>None\<close>.
\<close>

definition prepend :: "CharInfo \<Rightarrow> CharInfo list outcome \<Rightarrow> CharInfo list outcome" where
  "prepend ci r =
    (case r of
       Returned cis \<Rightarrow> Returned (ci # cis)
     | Aborted \<Rightarrow> Aborted
     | AssertFailed \<Rightarrow> AssertFailed
     | OutOfBounds \<Rightarrow> OutOfBounds)"

partial_function (option) decode_all :: "byte list \<Rightarrow> CharInfo list outcome option" where
  "decode_all buf =
    (if buf = [] then Some (Returned [])
     else case extract_one_codepoint buf of
       Returned ci \<Rightarrow>
         Option.bind (decode_all (drop (unat (byte_count ci)) buf))
           (\<lambda>r. Some (prepend ci r))
     | Aborted \<Rightarrow> Some Aborted
     | AssertFailed \<Rightarrow> Some AssertFailed
     | OutOfBounds \<Rightarrow> Some OutOfBounds)"

declare decode_all.simps [code]

subsection \<open>Well-formed UTF-8 and the encoder\<close>

text \<open>
  The two notions of the round-trip law that are not code of the decoder. A buffer is
  well formed when it is a sequence of the byte patterns of the Unicode standard
  (table 3-7): shortest forms only, no surrogates, nothing above \<^verbatim>\<open>U+10FFFF\<close>.
  \<open>utf8_encode\<close> is the encoding of one codepoint as the standard defines it.
\<close>

definition is_cont :: "byte \<Rightarrow> bool" where
  "is_cont b \<longleftrightarrow> 0x80 \<le> b \<and> b \<le> 0xBF"

definition second_of_3 :: "byte \<Rightarrow> byte \<Rightarrow> bool" where
  "second_of_3 b0 b1 =
     (if b0 = 0xE0 then 0xA0 \<le> b1 \<and> b1 \<le> 0xBF
      else if b0 = 0xED then 0x80 \<le> b1 \<and> b1 \<le> 0x9F
      else is_cont b1)"

definition second_of_4 :: "byte \<Rightarrow> byte \<Rightarrow> bool" where
  "second_of_4 b0 b1 =
     (if b0 = 0xF0 then 0x90 \<le> b1 \<and> b1 \<le> 0xBF
      else if b0 = 0xF4 then 0x80 \<le> b1 \<and> b1 \<le> 0x8F
      else is_cont b1)"

fun well_formed_utf8 :: "byte list \<Rightarrow> bool" where
  "well_formed_utf8 [] = True"
| "well_formed_utf8 (b0 # bs) =
    (if b0 < 0x80 then well_formed_utf8 bs
     else if 0xC2 \<le> b0 \<and> b0 \<le> 0xDF then
       (case bs of
          b1 # r \<Rightarrow> is_cont b1 \<and> well_formed_utf8 r
        | _ \<Rightarrow> False)
     else if 0xE0 \<le> b0 \<and> b0 \<le> 0xEF then
       (case bs of
          b1 # b2 # r \<Rightarrow> second_of_3 b0 b1 \<and> is_cont b2 \<and> well_formed_utf8 r
        | _ \<Rightarrow> False)
     else if 0xF0 \<le> b0 \<and> b0 \<le> 0xF4 then
       (case bs of
          b1 # b2 # b3 # r \<Rightarrow>
            second_of_4 b0 b1 \<and> is_cont b2 \<and> is_cont b3 \<and> well_formed_utf8 r
        | _ \<Rightarrow> False)
     else False)"

definition utf8_encode :: "uint32 \<Rightarrow> byte list" where
  "utf8_encode cp =
    (if cp < 0x80 then [ucast cp]
     else if cp < 0x800 then
       [0xC0 OR ucast (drop_bit 6 cp), 0x80 OR ucast (cp AND 0x3F)]
     else if cp < 0x10000 then
       [0xE0 OR ucast (drop_bit 12 cp), 0x80 OR ucast (drop_bit 6 cp AND 0x3F),
        0x80 OR ucast (cp AND 0x3F)]
     else
       [0xF0 OR ucast (drop_bit 18 cp), 0x80 OR ucast (drop_bit 12 cp AND 0x3F),
        0x80 OR ucast (drop_bit 6 cp AND 0x3F), 0x80 OR ucast (cp AND 0x3F)])"

text \<open>
  The bytes that the decoded codepoints encode to, one after the other, and the number
  of bytes the decoder said it consumed.
\<close>

definition reencode :: "CharInfo list \<Rightarrow> byte list" where
  "reencode cis = concat (map (\<lambda>ci. utf8_encode (codepoint ci)) cis)"

definition consumed :: "CharInfo list \<Rightarrow> nat" where
  "consumed cis = sum_list (map (\<lambda>ci. unat (byte_count ci)) cis)"

subsection \<open>Names for the proofs\<close>

text \<open>
  One round of the loop of \<^verbatim>\<open>unpack_one\<close>; the values the decoder computes for a
  sequence of two, three and four bytes; the leading bytes that no branch of
  \<^verbatim>\<open>extract_one_codepoint\<close> takes.
\<close>

definition shift_in :: "uint32 \<Rightarrow> byte \<Rightarrow> uint32" where
  "shift_in u b = push_bit 6 u OR (ucast b AND 0x3F)"

definition cp2 :: "byte \<Rightarrow> byte \<Rightarrow> uint32" where
  "cp2 b0 b1 = shift_in (ucast b0 AND 0x1F) b1"

definition cp3 :: "byte \<Rightarrow> byte \<Rightarrow> byte \<Rightarrow> uint32" where
  "cp3 b0 b1 b2 = shift_in (shift_in (ucast b0 AND 0xF) b1) b2"

definition cp4 :: "byte \<Rightarrow> byte \<Rightarrow> byte \<Rightarrow> byte \<Rightarrow> uint32" where
  "cp4 b0 b1 b2 b3 = shift_in (shift_in (shift_in (ucast b0 AND 0x7) b1) b2) b3"


section \<open>Example sessions\<close>

text \<open>
  A session that writes to \<^verbatim>\<open>out.pdf\<close>, fresh and with one page registered, and an
  environment in which every call succeeds. In the examples \<^verbatim>\<open>double\<close> values are
  integers.
\<close>

definition gen_fresh :: "int PdfGen" where
  "gen_fresh =
     \<lparr>ofilename = ''out.pdf'',
      pdoc = \<lparr>pages = [], patterns = [], font_objects = [], fonts = []\<rparr>\<rparr>"

definition gen_one_page :: "int PdfGen" where
  "gen_one_page =
     \<lparr>ofilename = ''out.pdf'',
      pdoc = \<lparr>pages = [\<lparr>dict = ''<<>>'', commands = ''0 0 m''\<rparr>], patterns = [],
              font_objects = [], fonts = []\<rparr>\<rparr>"

definition io_ok :: io_env where
  "io_ok = \<lparr>fopen_ok = True, write_to_file_outcome = WriteOk, fflush_ok = True,
            fsync_ok = True, fclose_ok = True, rename_ok = True\<rparr>"

text \<open>
  A page context with some content, a converter that knows 7-bit ASCII only, a face
  without kerning, and sessions with one font: loaded from a file (with a face) or
  built-in (without).
\<close>

definition page_ctx :: PdfDrawContext where
  "page_ctx =
     \<lparr>context_type = A4PDF_Page_Context, resource_dict = ''<<>>'',
      command_stream = ''0 0 m'', closed = False\<rparr>"

definition ascii_iconv :: "byte list \<Rightarrow> iconv_result" where
  "ascii_iconv bs =
     (case bs of [] \<Rightarrow> IconvFailed
      | b # rest \<Rightarrow> if b < 0x80 then IconvReturned (ucast b) rest else IconvFailed)"

definition ascii_env :: "int text_env" where
  "ascii_env =
     \<lparr>iconv_open_ok = True, iconv = ascii_iconv,
      glyph_advance = (\<lambda>fid pointsize cp. Some (pointsize * (uint cp mod 7 + 1))),
      int_to_double = (\<lambda>i. i)\<rparr>"

definition plain_face :: FT_Face where
  "plain_face =
     \<lparr>has_kerning = False, units_per_EM = 1000, get_char_index = unat,
      get_kerning = (\<lambda>l r. (0, 0))\<rparr>"

definition gen_loaded_font :: "int PdfGen" where
  "gen_loaded_font =
     \<lparr>ofilename = ''out.pdf'',
      pdoc = \<lparr>pages = [], patterns = [], font_objects = [\<lparr>font_index_tmp = 0\<rparr>],
              fonts = [\<lparr>face = Some plain_face\<rparr>]\<rparr>\<rparr>"

definition gen_builtin_font :: "int PdfGen" where
  "gen_builtin_font =
     \<lparr>ofilename = ''out.pdf'',
      pdoc = \<lparr>pages = [], patterns = [], font_objects = [\<lparr>font_index_tmp = 0\<rparr>],
              fonts = [\<lparr>face = None\<rparr>]\<rparr>\<rparr>"



section \<open>Committing with no pages\<close>

text \<open>
  C2. In a session with zero registered pages, \<^verbatim>\<open>write\<close> returns
  \<^verbatim>\<open>ErrorCode::NoPages\<close> and makes no system call at all, whatever the
  environment would have answered: neither the temporary file nor the destination
  is opened or written, and the file system is as it was.
\<close>

theorem write_no_pages:
  "pages (pdoc g) = [] \<Longrightarrow>
     PdfGen_write env g = (NoPages, []) \<and>
     run_calls env bytes fs (snd (PdfGen_write env g)) = fs"
  by (simp add: PdfGen_write_def run_calls_def)

theorem write_no_pages_witness:
  "pages (pdoc gen_fresh) = [] \<and>
   PdfGen_write io_ok gen_fresh = (NoPages, [])"
  using write_no_pages [of gen_fresh io_ok]
  by (simp add: gen_fresh_def)

section \<open>The rename comes last\<close>


















section \<open>Which error a failing stage reports\<close>

lemma write_error_codes:
  "pages (pdoc g) \<noteq> [] \<Longrightarrow>
     fst (PdfGen_write env g) =
       (if \<not> fopen_ok env then CouldNotOpenFile
        else if write_to_file_outcome env \<noteq> WriteOk \<or> \<not> fflush_ok env then DynamicError
        else if \<not> fsync_ok env \<or> \<not> fclose_ok env \<or> \<not> rename_ok env then FileWriteError
        else NoError)"
  by (simp add: PdfGen_write_def Let_def)

text \<open>
  C4, as the claim states it, fails: a run whose \<^verbatim>\<open>fsync\<close> fails and a run whose
  \<^verbatim>\<open>rename\<close> fails fail at different stages and return the same code,
  \<^verbatim>\<open>FileWriteError\<close>.
\<close>

theorem write_fsync_rename_same_code:
  "fst (PdfGen_write (io_ok\<lparr>fsync_ok := False\<rparr>) gen_one_page) = FileWriteError \<and>
   fst (PdfGen_write (io_ok\<lparr>rename_ok := False\<rparr>) gen_one_page) = FileWriteError"
  by (simp add: PdfGen_write_def Let_def gen_one_page_def io_ok_def)

text \<open>
  C4, amended. With at least one page registered, the code \<^verbatim>\<open>write\<close> returns is
  decided by the first step that fails: \<^verbatim>\<open>CouldNotOpenFile\<close> when the temporary file
  cannot be opened, \<^verbatim>\<open>DynamicError\<close> when serializing throws or \<^verbatim>\<open>fflush\<close> fails,
  \<^verbatim>\<open>FileWriteError\<close> when \<^verbatim>\<open>fsync\<close>, \<^verbatim>\<open>fclose\<close> or \<^verbatim>\<open>rename\<close> fails, and
  \<^verbatim>\<open>NoError\<close> when none does. So a failure to open, a failure to write or flush and a
  failure of a later step (force to storage, close, rename) are told apart by the caller,
  while the later steps share one code.
\<close>

theorem write_error_by_stage:
  "pages (pdoc g) \<noteq> [] \<Longrightarrow>
     (\<not> fopen_ok env \<longrightarrow> fst (PdfGen_write env g) = CouldNotOpenFile) \<and>
     (fopen_ok env \<and> (write_to_file_outcome env \<noteq> WriteOk \<or> \<not> fflush_ok env) \<longrightarrow>
        fst (PdfGen_write env g) = DynamicError) \<and>
     (fopen_ok env \<and> write_to_file_outcome env = WriteOk \<and> fflush_ok env \<and>
      (\<not> fsync_ok env \<or> \<not> fclose_ok env \<or> \<not> rename_ok env) \<longrightarrow>
        fst (PdfGen_write env g) = FileWriteError) \<and>
     (all_ok env \<and> rename_ok env \<longrightarrow> fst (PdfGen_write env g) = NoError) \<and>
     (\<not> fopen_ok env \<and> fopen_ok env' \<longrightarrow>
        fst (PdfGen_write env g) \<noteq> fst (PdfGen_write env' g)) \<and>
     (fopen_ok env \<and> (write_to_file_outcome env \<noteq> WriteOk \<or> \<not> fflush_ok env) \<and>
      fopen_ok env' \<and> write_to_file_outcome env' = WriteOk \<and> fflush_ok env' \<longrightarrow>
        fst (PdfGen_write env g) \<noteq> fst (PdfGen_write env' g))"
  by (simp add: write_error_codes all_ok_def)

theorem write_error_by_stage_witness:
  "pages (pdoc gen_one_page) \<noteq> [] \<and>
   fst (PdfGen_write (io_ok\<lparr>fopen_ok := False\<rparr>) gen_one_page) = CouldNotOpenFile \<and>
   fst (PdfGen_write (io_ok\<lparr>fopen_ok := False\<rparr>) gen_one_page) \<noteq>
   fst (PdfGen_write (io_ok\<lparr>rename_ok := False\<rparr>) gen_one_page)"
  using write_error_by_stage
    [of "gen_one_page"
        "(io_ok\<lparr>fopen_ok := False\<rparr>)"
        "(io_ok\<lparr>rename_ok := False\<rparr>)"]
  by (simp add: PdfGen_write_def Let_def gen_one_page_def io_ok_def)

section \<open>Closing a scope through the wrong path\<close>

text \<open>
  C8. Closing a scope through the path of the other type is always rejected with the
  type-mismatch error: for every draw context whose type is not page, \<^verbatim>\<open>add_page\<close>
  throws its \<^verbatim>\<open>runtime_error\<close>, and for every pattern builder whose context type is
  not color-tiling-pattern, \<^verbatim>\<open>add_pattern\<close> throws its own. The result carries no new
  generator: nothing is registered.
\<close>

theorem wrong_path_rejected:
  "(draw_context_type ctx \<noteq> A4PDF_Page_Context \<longrightarrow>
      PdfGen_add_page g ctx =
        Inl (RuntimeError ''Tried to pass a non-page context to add_page.'')) \<and>
   (draw_context_type (pctx cp) \<noteq> A4PDF_Color_Tiling_Pattern_Context \<longrightarrow>
      PdfGen_add_pattern g cp =
        Inl (RuntimeError ''Tried to pass an incorrect pattern type to add_pattern.''))"
  by (simp add: PdfGen_add_page_def PdfGen_add_pattern_def)

theorem wrong_path_rejected_witness:
  "draw_context_type (pctx (new_color_pattern_builder (3 :: int) 4)) \<noteq> A4PDF_Page_Context \<and>
   PdfGen_add_page gen_fresh (pctx (new_color_pattern_builder (3 :: int) 4)) =
     Inl (RuntimeError ''Tried to pass a non-page context to add_page.'') \<and>
   draw_context_type (pctx \<lparr>pctx = page_ctx, cp_w = 3 :: int, cp_h = 4\<rparr>) \<noteq>
     A4PDF_Color_Tiling_Pattern_Context \<and>
   PdfGen_add_pattern gen_fresh \<lparr>pctx = page_ctx, cp_w = 3 :: int, cp_h = 4\<rparr> =
     Inl (RuntimeError ''Tried to pass an incorrect pattern type to add_pattern.'')"
  using wrong_path_rejected
    [of "pctx (new_color_pattern_builder (3 :: int) 4)" gen_fresh
        "\<lparr>pctx = page_ctx, cp_w = 3 :: int, cp_h = 4\<rparr>"]
  by (simp add: draw_context_type_def new_color_pattern_builder_def page_ctx_def)

section \<open>Closing a scope twice\<close>



section \<open>Text width\<close>

lemma utf8_text_width_face:
  "iconv_open_ok env \<Longrightarrow> resolves_to g fid ft \<Longrightarrow> face ft = Some fc \<Longrightarrow>
   utf8_text_width env g text fid ps = width_loop env fc fid ps (- 1) text 0"
  by (auto simp: utf8_text_width_def resolves_to_def split: option.splits)

lemma width_loop_no_kerning:
  "\<not> has_kerning fc \<Longrightarrow> iconv_decodes env bs cps \<Longrightarrow>
   those (map (glyph_advance env fid ps) cps) = Some ws \<Longrightarrow>
   width_loop env fc fid ps prev bs wd = Some (Inr (foldl (+) wd ws))"
proof (induction cps arbitrary: bs prev wd ws)
  case Nil
  then show ?case by (simp add: width_loop.simps)
next
  case (Cons c cs)
  from Cons.prems(2) obtain rest where
    ne: "bs \<noteq> []" and ic: "iconv env bs = IconvReturned c rest" and
    dec: "iconv_decodes env rest cs"
    by (auto split: iconv_result.splits)
  from Cons.prems(3) obtain a as where
    a: "glyph_advance env fid ps c = Some a" and
    as: "those (map (glyph_advance env fid ps) cs) = Some as" and ws: "ws = a # as"
    by (auto split: option.splits)
  have "width_loop env fc fid ps prev bs wd = width_loop env fc fid ps c rest (wd + a)"
    using ne ic a Cons.prems(1)
    by (subst width_loop.simps) (simp add: kerning_adjust_def)
  also have "\<dots> = Some (Inr (foldl (+) (wd + a) as))"
    by (rule Cons.IH [OF Cons.prems(1) dec as])
  finally show ?case by (simp add: ws)
qed

text \<open>
  C5. Take a font handle that resolves to a face without kerning support, and any point
  size. Whenever the converter turns the text into the codepoints \<open>cps\<close> and
  \<^verbatim>\<open>glyph_advance\<close> gives a width for each (\<open>ws\<close>, scaled to the point size by
  \<^verbatim>\<open>glyph_advance\<close>), the result is the sum of those widths, added one after the other
  to the initial \<open>0\<close>; no kerning term is added. For the two bytes of \<^verbatim>\<open>"AB"\<close> that is
  \<open>0 + a + b\<close>, which is \<open>a + b\<close> as soon as adding to zero changes nothing. The
  function returns a value and changes no state, so what was measured before on the
  handle cannot change the result.
\<close>

theorem text_width_no_kerning:
  fixes env :: "('d::{zero,plus}) text_env"
  assumes "iconv_open_ok env" "resolves_to g fid ft" "face ft = Some fc" "\<not> has_kerning fc"
  shows "(iconv_decodes env text cps \<and>
          those (map (glyph_advance env fid ps) cps) = Some ws \<longrightarrow>
            utf8_text_width env g text fid ps = Some (Inr (foldl (+) 0 ws))) \<and>
         (iconv env [0x41, 0x42] = IconvReturned 0x41 [0x42] \<and>
          iconv env [0x42] = IconvReturned 0x42 [] \<and>
          glyph_advance env fid ps 0x41 = Some a \<and>
          glyph_advance env fid ps 0x42 = Some b \<longrightarrow>
            utf8_text_width env g [0x41, 0x42] fid ps = Some (Inr (0 + a + b)) \<and>
            (0 + a = a \<longrightarrow>
               utf8_text_width env g [0x41, 0x42] fid ps = Some (Inr (a + b))))"
proof -
  have gen: "utf8_text_width env g t fid ps = Some (Inr (foldl (+) 0 vs))"
    if "iconv_decodes env t cs" "those (map (glyph_advance env fid ps) cs) = Some vs"
    for t cs vs
    using assms that by (simp add: utf8_text_width_face width_loop_no_kerning)
  have ab: "utf8_text_width env g [0x41, 0x42] fid ps = Some (Inr (0 + a + b))"
    if "iconv env [0x41, 0x42] = IconvReturned 0x41 [0x42]"
       "iconv env [0x42] = IconvReturned 0x42 []"
       "glyph_advance env fid ps 0x41 = Some a" "glyph_advance env fid ps 0x42 = Some b"
    using gen [of "[0x41, 0x42]" "[0x41, 0x42]" "[a, b]"] that by simp
  show ?thesis using gen ab by auto
qed

theorem text_width_no_kerning_witness:
  "iconv_open_ok ascii_env \<and> resolves_to gen_loaded_font 0 \<lparr>face = Some plain_face\<rparr> \<and>
   \<not> has_kerning plain_face \<and>
   iconv ascii_env [0x41, 0x42] = IconvReturned 0x41 [0x42] \<and>
   iconv ascii_env [0x42] = IconvReturned 0x42 [] \<and>
   glyph_advance ascii_env 0 12 0x41 = Some 36 \<and>
   glyph_advance ascii_env 0 12 0x42 = Some 48 \<and>
   utf8_text_width ascii_env gen_loaded_font [0x41, 0x42] 0 12 = Some (Inr 84)"
  using text_width_no_kerning
    [of ascii_env gen_loaded_font 0 "\<lparr>face = Some plain_face\<rparr>" plain_face
        "[0x41, 0x42]" "[0x41, 0x42]" 12 "[36, 48]" 36 48]
  by (simp add: ascii_env_def ascii_iconv_def gen_loaded_font_def plain_face_def
        resolves_to_def at_index_def)

text \<open>
  C6, as the claim states it, fails: on a built-in font (no face) the one-character
  ASCII text \<^verbatim>\<open>"A"\<close> is not measured; the call throws.
\<close>

theorem builtin_font_ascii_fails:
  "utf8_text_width ascii_env gen_builtin_font [0x41] 0 12 =
     Some (Inl (RuntimeError
       ''Tried to use builtin font to render UTF-8. They only support ASCII.''))"
  by (simp add: utf8_text_width_def ascii_env_def gen_builtin_font_def at_index_def)

text \<open>
  C6, amended. For every font handle that resolves to a font with no face (a built-in,
  name-only font), \<^verbatim>\<open>utf8_text_width\<close> fails for every text, 7-bit ASCII or not, the
  empty text included: it throws the \<^verbatim>\<open>runtime_error\<close> "Tried to use builtin font to
  render UTF-8" before it reads the text.
\<close>

theorem builtin_font_always_fails:
  fixes env :: "('d::{zero,plus}) text_env"
  shows "iconv_open_ok env \<Longrightarrow> resolves_to g fid ft \<Longrightarrow> face ft = None \<Longrightarrow>
     utf8_text_width env g text fid ps =
       Some (Inl (RuntimeError
         ''Tried to use builtin font to render UTF-8. They only support ASCII.''))"
  by (auto simp: utf8_text_width_def resolves_to_def split: option.splits)

theorem builtin_font_always_fails_witness:
  "iconv_open_ok ascii_env \<and> resolves_to gen_builtin_font 0 \<lparr>face = None\<rparr> \<and>
   face \<lparr>face = None\<rparr> = None \<and>
   utf8_text_width ascii_env gen_builtin_font [0xC3, 0xA9] 0 12 =
     Some (Inl (RuntimeError
       ''Tried to use builtin font to render UTF-8. They only support ASCII.''))"
  using builtin_font_always_fails
    [of ascii_env gen_builtin_font 0 "\<lparr>face = None\<rparr>" "[0xC3, 0xA9]" 12]
  by (simp add: ascii_env_def gen_builtin_font_def resolves_to_def at_index_def)

text \<open>
  C7, as the claim states it, fails: the handle of a built-in font is a font handle the
  function expects to meet, and measuring the empty string on it throws instead of
  returning 0.
\<close>

theorem builtin_font_empty_fails:
  "utf8_text_width ascii_env gen_builtin_font [] 0 12 =
     Some (Inl (RuntimeError
       ''Tried to use builtin font to render UTF-8. They only support ASCII.''))"
  by (simp add: utf8_text_width_def ascii_env_def gen_builtin_font_def at_index_def)

text \<open>
  C7, amended. For every font handle that resolves to a font with a face, and every
  point size, measuring the empty string returns exactly 0 once the converter is open.
  The loop body is not entered: the result is the same whatever the converter and
  \<^verbatim>\<open>glyph_advance\<close> are, because neither is called.
\<close>

theorem text_width_empty:
  fixes env :: "('d::{zero,plus}) text_env"
  shows "iconv_open_ok env \<Longrightarrow> resolves_to g fid ft \<Longrightarrow> face ft = Some fc \<Longrightarrow>
     utf8_text_width (env\<lparr>iconv := cv, glyph_advance := ga\<rparr>) g [] fid ps = Some (Inr 0) \<and>
     utf8_text_width env g [] fid ps = Some (Inr 0)"
  by (auto simp: utf8_text_width_def resolves_to_def width_loop.simps split: option.splits)

theorem text_width_empty_witness:
  "iconv_open_ok ascii_env \<and> resolves_to gen_loaded_font 0 \<lparr>face = Some plain_face\<rparr> \<and>
   face \<lparr>face = Some plain_face\<rparr> = Some plain_face \<and>
   utf8_text_width ascii_env gen_loaded_font [] 0 12 = Some (Inr 0)"
  using text_width_empty
    [of ascii_env gen_loaded_font 0 "\<lparr>face = Some plain_face\<rparr>" plain_face]
  by (simp add: ascii_env_def gen_loaded_font_def resolves_to_def at_index_def)

section \<open>The decoder, bit by bit\<close>

subsection \<open>From bit operations to arithmetic\<close>

lemma mask_3F: "(0x3F :: 'a::len word) = mask 6" by (simp add: mask_eq_exp_minus_1)

lemma assert_holds: "push_bit 6 (u :: uint32) AND 0x3F = 0"
  unfolding mask_3F by (rule bit_eqI) (auto simp: bit_simps)

lemma unat_and_3F: "unat ((x :: uint32) AND 0x3F) = unat x mod 64"
  unfolding mask_3F by (simp add: take_bit_eq_mod unat_mod flip: take_bit_eq_mask)

lemma unat_byte_lt: "unat (b :: byte) < 256"
  using unsigned_less [of b, where 'a = nat] by simp

lemma unat_ucast_byte: "unat (ucast (b :: byte) :: uint32) = unat b"
  using unat_byte_lt [of b] by (simp add: unsigned_ucast_eq take_bit_nat_eq_self)

lemma unat_ucast_down: "unat (ucast (w :: uint32) :: byte) = unat w mod 256"
  by (simp add: unsigned_ucast_eq take_bit_eq_mod)

lemma unat_drop: "unat (drop_bit n (w :: uint32)) = unat w div 2 ^ n"
  by (simp only: unat_drop_bit_eq) (simp only: drop_bit_eq_div)

lemma unat_push: "unat (push_bit n (w :: uint32)) = (unat w * 2 ^ n) mod 2 ^ 32"
  by (simp only: unsigned_push_bit_eq) (simp add: take_bit_eq_mod push_bit_eq_mult)

lemma nat_or_add: "r < 2 ^ n \<Longrightarrow> (x * 2 ^ n) OR r = x * 2 ^ n + (r :: nat)"
proof -
  assume r: "r < 2 ^ n"
  then have tr: "take_bit n r = r" by (simp add: take_bit_nat_eq_self)
  have "push_bit n x AND take_bit n r = 0"
    by (rule bit_eqI) (auto simp: bit_simps)
  then have "push_bit n x + take_bit n r = push_bit n x OR take_bit n r"
    by (rule disjunctive_add_eq_or)
  then show ?thesis by (simp add: tr push_bit_eq_mult)
qed

lemma unat_or: "unat ((a :: 'a::len word) OR b) = unat a OR unat b"
  by (simp add: unsigned_or_eq)

lemma unat_and: "unat ((a :: 'a::len word) AND b) = unat a AND unat b"
  by (simp add: unsigned_and_eq)

lemma nat_and_hi: "(x::nat) AND (m * 2 ^ n) = ((x div 2 ^ n) AND m) * 2 ^ n"
  by (rule bit_eqI) (auto simp: bit_simps simp flip: push_bit_eq_mult drop_bit_eq_div)

lemma unat_and_1F: "unat ((x :: uint32) AND 0x1F) = unat x mod 32"
proof -
  have m: "(0x1F :: uint32) = mask 5" by (simp add: mask_eq_exp_minus_1)
  show ?thesis unfolding m by (simp add: take_bit_eq_mod unat_mod flip: take_bit_eq_mask)
qed

lemma unat_and_0F: "unat ((x :: uint32) AND 0xF) = unat x mod 16"
proof -
  have m: "(0xF :: uint32) = mask 4" by (simp add: mask_eq_exp_minus_1)
  show ?thesis unfolding m by (simp add: take_bit_eq_mod unat_mod flip: take_bit_eq_mask)
qed

lemma unat_and_07: "unat ((x :: uint32) AND 0x7) = unat x mod 8"
proof -
  have m: "(0x7 :: uint32) = mask 3" by (simp add: mask_eq_exp_minus_1)
  show ?thesis unfolding m by (simp add: take_bit_eq_mod unat_mod flip: take_bit_eq_mask)
qed

lemma nat_and_high:
  fixes x :: nat
  assumes "x < 256"
  shows "x AND 224 = (x div 32) * 32" "x AND 240 = (x div 16) * 16" "x AND 248 = (x div 8) * 8"
proof -
  have a: "(x div 2 ^ k) AND mask (8 - k) = x div 2 ^ k" if "k \<le> 8" for k
  proof -
    have "x div 2 ^ k < 2 ^ (8 - k)"
      using assms that by (simp add: less_mult_imp_div_less flip: power_add)
    then show ?thesis
      by (simp add: take_bit_nat_eq_self flip: take_bit_eq_mask)
  qed
  show "x AND 224 = (x div 32) * 32"
    using nat_and_hi [of x 7 5] a [of 5] by (simp add: mask_eq_exp_minus_1)
  show "x AND 240 = (x div 16) * 16"
    using nat_and_hi [of x 15 4] a [of 4] by (simp add: mask_eq_exp_minus_1)
  show "x AND 248 = (x div 8) * 8"
    using nat_and_hi [of x 31 3] a [of 3] by (simp add: mask_eq_exp_minus_1)
qed

lemma classify:
  fixes b :: byte
  shows "(ucast b :: uint32) < 0x80 \<longleftrightarrow> unat b < 128"
    and "(ucast b :: uint32) AND 0xE0 = 0xC0 \<longleftrightarrow> 192 \<le> unat b \<and> unat b < 224"
    and "(ucast b :: uint32) AND 0xF0 = 0xE0 \<longleftrightarrow> 224 \<le> unat b \<and> unat b < 240"
    and "(ucast b :: uint32) AND 0xF8 = 0xF0 \<longleftrightarrow> 240 \<le> unat b \<and> unat b < 248"
  using unat_byte_lt [of b]
  by (auto simp: word_less_nat_alt word_unat_eq_iff unat_ucast_byte unat_and nat_and_high)

subsection \<open>The loop of \<^verbatim>\<open>unpack_one\<close>\<close>

lemma unpack_loop_done: "unpack_loop buf n n u = Returned u"
  by (subst unpack_loop.simps) simp

lemma unpack_loop_step:
  "i < n \<Longrightarrow> byte_at buf (Suc i) = Some b \<Longrightarrow>
   unpack_loop buf n i u = unpack_loop buf n (Suc i) (shift_in u b)"
  by (subst unpack_loop.simps) (simp add: assert_holds Let_def shift_in_def)


lemma unpack_loop_1:
  "unpack_loop (b0 # b1 # rest) (Suc 0) 0 u = Returned (shift_in u b1)"
proof -
  have "unpack_loop (b0 # b1 # rest) (Suc 0) 0 u =
        unpack_loop (b0 # b1 # rest) (Suc 0) (Suc 0) (shift_in u b1)"
    by (rule unpack_loop_step) (simp_all add: byte_at_def)
  then show ?thesis by (simp add: unpack_loop_done)
qed

lemma unpack_loop_2:
  "unpack_loop (b0 # b1 # b2 # rest) 2 0 u = Returned (shift_in (shift_in u b1) b2)"
proof -
  let ?buf = "b0 # b1 # b2 # rest"
  have "unpack_loop ?buf 2 0 u = unpack_loop ?buf 2 (Suc 0) (shift_in u b1)"
    by (rule unpack_loop_step) (simp_all add: byte_at_def)
  also have "\<dots> = unpack_loop ?buf 2 (Suc (Suc 0)) (shift_in (shift_in u b1) b2)"
    by (rule unpack_loop_step) (simp_all add: byte_at_def)
  also have "Suc (Suc 0) = 2" by simp
  finally show ?thesis by (simp add: unpack_loop_done)
qed

lemma unpack_loop_3:
  "unpack_loop (b0 # b1 # b2 # b3 # rest) 3 0 u =
     Returned (shift_in (shift_in (shift_in u b1) b2) b3)"
proof -
  let ?buf = "b0 # b1 # b2 # b3 # rest"
  have "unpack_loop ?buf 3 0 u = unpack_loop ?buf 3 (Suc 0) (shift_in u b1)"
    by (rule unpack_loop_step) (simp_all add: byte_at_def)
  also have "\<dots> = unpack_loop ?buf 3 (Suc (Suc 0)) (shift_in (shift_in u b1) b2)"
    by (rule unpack_loop_step) (simp_all add: byte_at_def)
  also have "\<dots> = unpack_loop ?buf 3 (Suc (Suc (Suc 0)))
                      (shift_in (shift_in (shift_in u b1) b2) b3)"
    by (rule unpack_loop_step) (simp_all add: byte_at_def)
  also have "Suc (Suc (Suc 0)) = 3" by simp
  finally show ?thesis by (simp add: unpack_loop_done)
qed

lemma unat_shift_in:
  fixes u :: uint32 and b :: byte
  assumes "unat u < 2 ^ 26"
  shows "unat (shift_in u b) = unat u * 64 + unat b mod 64"
proof -
  have "unat u * 64 < 2 ^ 32" using assms by simp
  then have p: "unat (push_bit 6 u) = unat u * 2 ^ 6"
    by (simp add: unat_push)
  have r: "unat ((ucast b :: uint32) AND 0x3F) = unat b mod 64"
    by (simp add: unat_and_3F unat_ucast_byte)
  have "unat b mod 64 < 2 ^ 6" by simp
  from nat_or_add [OF this, of "unat u"] show ?thesis
    by (simp add: shift_in_def unat_or p r)
qed

lemma unat_lead_or:
  fixes w :: uint32
  shows "unat w < 64 \<Longrightarrow> unat ((0x80 :: byte) OR ucast w) = 128 + unat w"
    and "unat w < 64 \<Longrightarrow> unat ((0xC0 :: byte) OR ucast w) = 192 + unat w"
    and "unat w < 32 \<Longrightarrow> unat ((0xE0 :: byte) OR ucast w) = 224 + unat w"
    and "unat w < 16 \<Longrightarrow> unat ((0xF0 :: byte) OR ucast w) = 240 + unat w"
  using nat_or_add [of "unat w" 6 2] nat_or_add [of "unat w" 6 3]
    nat_or_add [of "unat w" 5 7] nat_or_add [of "unat w" 4 15]
  by (simp_all add: unat_or unat_ucast_down)

subsection \<open>What the decoder returns for each width\<close>

lemma extract_1:
  "unat b0 < 128 \<Longrightarrow>
   extract_one_codepoint (b0 # rest) = Returned \<lparr>codepoint = ucast b0, byte_count = 1\<rparr>"
  by (simp add: extract_one_codepoint_def byte_at_def classify)

lemma extract_2:
  "192 \<le> unat b0 \<Longrightarrow> unat b0 < 224 \<Longrightarrow>
   extract_one_codepoint (b0 # b1 # rest) =
     Returned \<lparr>codepoint = cp2 b0 b1, byte_count = 2\<rparr>"
  by (simp add: extract_one_codepoint_def byte_at_def classify char_info_def unpack_one_def
        unpack_loop_1 cp2_def)

lemma extract_3:
  "224 \<le> unat b0 \<Longrightarrow> unat b0 < 240 \<Longrightarrow>
   extract_one_codepoint (b0 # b1 # b2 # rest) =
     Returned \<lparr>codepoint = cp3 b0 b1 b2, byte_count = 3\<rparr>"
  by (simp add: extract_one_codepoint_def byte_at_def classify char_info_def unpack_one_def
        unpack_loop_2 cp3_def)

lemma extract_4:
  "240 \<le> unat b0 \<Longrightarrow> unat b0 < 248 \<Longrightarrow>
   extract_one_codepoint (b0 # b1 # b2 # b3 # rest) =
     Returned \<lparr>codepoint = cp4 b0 b1 b2 b3, byte_count = 4\<rparr>"
  by (simp add: extract_one_codepoint_def byte_at_def classify char_info_def unpack_one_def
        unpack_loop_3 cp4_def)

lemma unat_cp2: "unat (cp2 b0 b1) = (unat b0 mod 32) * 64 + unat b1 mod 64"
proof -
  have "unat ((ucast b0 :: uint32) AND 0x1F) = unat b0 mod 32"
    by (simp add: unat_and_1F unat_ucast_byte)
  then show ?thesis
    by (simp add: cp2_def unat_shift_in)
qed

lemma unat_cp3:
  "unat (cp3 b0 b1 b2) = ((unat b0 mod 16) * 64 + unat b1 mod 64) * 64 + unat b2 mod 64"
proof -
  have a: "unat ((ucast b0 :: uint32) AND 0xF) = unat b0 mod 16"
    by (simp add: unat_and_0F unat_ucast_byte)
  have b: "unat (shift_in (ucast b0 AND 0xF) b1) = (unat b0 mod 16) * 64 + unat b1 mod 64"
    by (simp add: unat_shift_in a)
  have "(unat b0 mod 16) * 64 + unat b1 mod 64 < 2 ^ 26"
    using mod_less_divisor [of 16 "unat b0"] mod_less_divisor [of 64 "unat b1"] by simp
  then show ?thesis
    by (simp add: cp3_def unat_shift_in b)
qed

lemma unat_cp4:
  "unat (cp4 b0 b1 b2 b3) =
     (((unat b0 mod 8) * 64 + unat b1 mod 64) * 64 + unat b2 mod 64) * 64 + unat b3 mod 64"
proof -
  have a: "unat ((ucast b0 :: uint32) AND 0x7) = unat b0 mod 8"
    by (simp add: unat_and_07 unat_ucast_byte)
  have b: "unat (shift_in (ucast b0 AND 0x7) b1) = (unat b0 mod 8) * 64 + unat b1 mod 64"
    by (simp add: unat_shift_in a)
  have lt: "(unat b0 mod 8) * 64 + unat b1 mod 64 < 2 ^ 10"
    using mod_less_divisor [of 8 "unat b0"] mod_less_divisor [of 64 "unat b1"] by simp
  then have lt': "(unat b0 mod 8) * 64 + unat b1 mod 64 < 2 ^ 26"
    by simp
  have c: "unat (shift_in (shift_in (ucast b0 AND 0x7) b1) b2) =
           ((unat b0 mod 8) * 64 + unat b1 mod 64) * 64 + unat b2 mod 64"
    using lt' by (simp add: unat_shift_in b)
  have "((unat b0 mod 8) * 64 + unat b1 mod 64) * 64 + unat b2 mod 64 < 2 ^ 26"
    using lt mod_less_divisor [of 64 "unat b2"] by simp
  then show ?thesis
    by (simp add: cp4_def unat_shift_in c)
qed

subsection \<open>The bytes of the encoder\<close>

lemma unat_cont_byte:
  fixes w :: uint32
  shows "unat ((0x80 :: byte) OR ucast (w AND 0x3F)) = 128 + unat w mod 64"
proof -
  have "unat (w AND 0x3F) < 64" by (simp add: unat_and_3F)
  then show ?thesis by (simp only: unat_lead_or unat_and_3F)
qed

lemma encode_1:
  "unat cp < 128 \<Longrightarrow> map unat (utf8_encode cp) = [unat cp]"
  by (simp add: utf8_encode_def word_less_nat_alt unat_ucast_down)

lemma encode_2:
  assumes "128 \<le> unat cp" "unat cp < 2048"
  shows "map unat (utf8_encode cp) = [192 + unat cp div 64, 128 + unat cp mod 64]"
proof -
  have "unat (drop_bit 6 cp) < 64" using assms by (simp add: unat_drop)
  then have "unat ((0xC0 :: byte) OR ucast (drop_bit 6 cp)) = 192 + unat cp div 64"
    by (simp only: unat_lead_or) (simp add: unat_drop)
  moreover have "utf8_encode cp = [0xC0 OR ucast (drop_bit 6 cp), 0x80 OR ucast (cp AND 0x3F)]"
    using assms by (simp add: utf8_encode_def word_less_nat_alt)
  ultimately show ?thesis by (simp only: list.map unat_cont_byte)
qed

lemma encode_3:
  assumes "2048 \<le> unat cp" "unat cp < 65536"
  shows "map unat (utf8_encode cp) =
           [224 + unat cp div 4096, 128 + (unat cp div 64) mod 64, 128 + unat cp mod 64]"
proof -
  have "unat (drop_bit 12 cp) < 32" using assms by (simp add: unat_drop)
  then have "unat ((0xE0 :: byte) OR ucast (drop_bit 12 cp)) = 224 + unat cp div 4096"
    by (simp only: unat_lead_or) (simp add: unat_drop)
  moreover have "utf8_encode cp =
      [0xE0 OR ucast (drop_bit 12 cp), 0x80 OR ucast (drop_bit 6 cp AND 0x3F),
       0x80 OR ucast (cp AND 0x3F)]"
    using assms by (simp add: utf8_encode_def word_less_nat_alt)
  moreover have "unat (drop_bit 6 cp) = unat cp div 64" by (simp add: unat_drop)
  ultimately show ?thesis by (simp only: list.map unat_cont_byte)
qed

lemma encode_4:
  assumes "65536 \<le> unat cp" "unat cp < 2097152"
  shows "map unat (utf8_encode cp) =
           [240 + unat cp div 262144, 128 + (unat cp div 4096) mod 64,
            128 + (unat cp div 64) mod 64, 128 + unat cp mod 64]"
proof -
  have "unat (drop_bit 18 cp) < 16" using assms by (simp add: unat_drop)
  then have "unat ((0xF0 :: byte) OR ucast (drop_bit 18 cp)) = 240 + unat cp div 262144"
    by (simp only: unat_lead_or) (simp add: unat_drop)
  moreover have "utf8_encode cp =
      [0xF0 OR ucast (drop_bit 18 cp), 0x80 OR ucast (drop_bit 12 cp AND 0x3F),
       0x80 OR ucast (drop_bit 6 cp AND 0x3F), 0x80 OR ucast (cp AND 0x3F)]"
    using assms by (simp add: utf8_encode_def word_less_nat_alt)
  moreover have "unat (drop_bit 6 cp) = unat cp div 64" "unat (drop_bit 12 cp) = unat cp div 4096"
    by (simp_all add: unat_drop)
  ultimately show ?thesis by (simp only: list.map unat_cont_byte)
qed

lemma bytes_eqI: "map unat (xs :: byte list) = map unat ys \<Longrightarrow> xs = ys"
  by (simp add: inj_map_eq_map inj_on_def word_unat_eq_iff)

subsection \<open>Digits in base 64\<close>

lemma mod_offset:
  fixes x :: nat
  assumes "a \<le> x" "x < a + m" "a mod m = 0"
  shows "x mod m = x - a"
proof -
  have "x = (x - a) + a" using assms by simp
  then have "x mod m = ((x - a) + a) mod m" by simp
  also have "\<dots> = (x - a) mod m" using assms(3) by (metis add.right_neutral mod_add_right_eq)
  also have "\<dots> = x - a" using assms by simp
  finally show ?thesis .
qed

lemma digits:
  fixes a p :: nat
  assumes "p < 64"
  shows "(a * 64 + p) div 64 = a" "(a * 64 + p) mod 64 = p"
  using assms by simp_all

lemma payload:
  fixes x :: nat
  assumes "a \<le> x" "x < a + m" "a mod m = 0"
  obtains p where "x = a + p" "p < m" "x mod m = p"
proof
  show "x = a + (x - a)" using assms by simp
  show "x - a < m" using assms by simp
  show "x mod m = x - a" using assms by (rule mod_offset)
qed

lemma arith_2:
  fixes x0 x1 n :: nat
  assumes "194 \<le> x0" "x0 \<le> 223" "128 \<le> x1" "x1 \<le> 191"
    and "n = (x0 mod 32) * 64 + x1 mod 64"
  shows "128 \<le> n \<and> n < 2048 \<and> 192 + n div 64 = x0 \<and> 128 + n mod 64 = x1"
proof -
  obtain p0 where p0: "x0 = 192 + p0" "p0 < 32" "x0 mod 32 = p0"
    using assms by (auto intro: payload [of 192 x0 32])
  obtain p1 where p1: "x1 = 128 + p1" "p1 < 64" "x1 mod 64 = p1"
    using assms by (auto intro: payload [of 128 x1 64])
  have n: "n = p0 * 64 + p1" using assms(5) by (simp only: p0(3) p1(3))
  have "2 \<le> p0" using assms(1) p0(1) by simp
  then show ?thesis using p0(1,2) p1(1,2) digits [OF p1(2), of p0] unfolding n by simp
qed

lemma arith_3:
  fixes x0 x1 x2 n :: nat
  assumes "224 \<le> x0" "x0 \<le> 239" "128 \<le> x1" "x1 \<le> 191" "128 \<le> x2" "x2 \<le> 191"
    and "x0 = 224 \<longrightarrow> 160 \<le> x1"
    and "n = ((x0 mod 16) * 64 + x1 mod 64) * 64 + x2 mod 64"
  shows "2048 \<le> n \<and> n < 65536 \<and> 224 + n div 4096 = x0 \<and>
         128 + (n div 64) mod 64 = x1 \<and> 128 + n mod 64 = x2"
proof -
  obtain p0 where p0: "x0 = 224 + p0" "p0 < 16" "x0 mod 16 = p0"
    using assms by (auto intro: payload [of 224 x0 16])
  obtain p1 where p1: "x1 = 128 + p1" "p1 < 64" "x1 mod 64 = p1"
    using assms by (auto intro: payload [of 128 x1 64])
  obtain p2 where p2: "x2 = 128 + p2" "p2 < 64" "x2 mod 64 = p2"
    using assms by (auto intro: payload [of 128 x2 64])
  have n: "n = (p0 * 64 + p1) * 64 + p2" using assms(8) by (simp only: p0(3) p1(3) p2(3))
  have d1: "n div 64 = p0 * 64 + p1" "n mod 64 = p2"
    unfolding n using digits [OF p2(2), of "p0 * 64 + p1"] by simp_all
  have d2: "(p0 * 64 + p1) div 64 = p0" "(p0 * 64 + p1) mod 64 = p1"
    using digits [OF p1(2), of p0] by simp_all
  have "n div 4096 = (n div 64) div 64" by (simp add: div_mult2_eq)
  then have d3: "n div 4096 = p0" by (simp only: d1 d2)
  have lo: "1 \<le> p0 \<or> 32 \<le> p1" using assms(7) p0(1) p1(1) by auto
  have "2048 \<le> n" "n < 65536" using lo p0(2) p1(2) p2(2) unfolding n by auto
  then show ?thesis using p0(1) p1(1) p2(1) d1 d2 d3 by simp
qed

lemma arith_4:
  fixes x0 x1 x2 x3 n :: nat
  assumes "240 \<le> x0" "x0 \<le> 244" "128 \<le> x1" "x1 \<le> 191" "128 \<le> x2" "x2 \<le> 191"
    "128 \<le> x3" "x3 \<le> 191"
    and "x0 = 240 \<longrightarrow> 144 \<le> x1"
    and "n = (((x0 mod 8) * 64 + x1 mod 64) * 64 + x2 mod 64) * 64 + x3 mod 64"
  shows "65536 \<le> n \<and> n < 2097152 \<and> 240 + n div 262144 = x0 \<and>
         128 + (n div 4096) mod 64 = x1 \<and> 128 + (n div 64) mod 64 = x2 \<and>
         128 + n mod 64 = x3"
proof -
  obtain p0 where p0: "x0 = 240 + p0" "p0 < 8" "x0 mod 8 = p0"
    using assms by (auto intro: payload [of 240 x0 8])
  obtain p1 where p1: "x1 = 128 + p1" "p1 < 64" "x1 mod 64 = p1"
    using assms by (auto intro: payload [of 128 x1 64])
  obtain p2 where p2: "x2 = 128 + p2" "p2 < 64" "x2 mod 64 = p2"
    using assms by (auto intro: payload [of 128 x2 64])
  obtain p3 where p3: "x3 = 128 + p3" "p3 < 64" "x3 mod 64 = p3"
    using assms by (auto intro: payload [of 128 x3 64])
  have n: "n = ((p0 * 64 + p1) * 64 + p2) * 64 + p3"
    using assms(10) by (simp only: p0(3) p1(3) p2(3) p3(3))
  have d1: "n div 64 = (p0 * 64 + p1) * 64 + p2" "n mod 64 = p3"
    unfolding n using digits [OF p3(2), of "(p0 * 64 + p1) * 64 + p2"] by simp_all
  have d2: "((p0 * 64 + p1) * 64 + p2) div 64 = p0 * 64 + p1"
    "((p0 * 64 + p1) * 64 + p2) mod 64 = p2"
    using digits [OF p2(2), of "p0 * 64 + p1"] by simp_all
  have d3: "(p0 * 64 + p1) div 64 = p0" "(p0 * 64 + p1) mod 64 = p1"
    using digits [OF p1(2), of p0] by simp_all
  have "n div 4096 = (n div 64) div 64" by (simp add: div_mult2_eq)
  then have e2: "n div 4096 = p0 * 64 + p1" by (simp only: d1 d2)
  have "n div 262144 = (n div 4096) div 64" by (simp add: div_mult2_eq)
  then have e3: "n div 262144 = p0" by (simp only: e2 d3)
  have lo: "1 \<le> p0 \<or> 16 \<le> p1" using assms(9) p0(1) p1(1) by auto
  have "65536 \<le> n" "n < 2097152" using lo p0(2) p1(2) p2(2) p3(2) unfolding n by auto
  then show ?thesis using p0(1) p1(1) p2(1) p3(1) d1 d2 d3 e2 e3 by simp
qed

subsection \<open>One sequence, decoded and encoded again\<close>

lemma roundtrip_1:
  assumes "b0 < 0x80"
  shows "utf8_encode (ucast b0) = [b0]"
proof -
  have r: "unat b0 < 128" using assms by (simp add: word_less_nat_alt)
  have "map unat (utf8_encode (ucast b0)) = map unat [b0]"
    using r by (simp add: encode_1 unat_ucast_byte)
  then show ?thesis by (rule bytes_eqI)
qed

lemma roundtrip_2:
  assumes "0xC2 \<le> b0" "b0 \<le> 0xDF" "is_cont b1"
  shows "utf8_encode (cp2 b0 b1) = [b0, b1]"
proof -
  have r: "194 \<le> unat b0" "unat b0 \<le> 223" "128 \<le> unat b1" "unat b1 \<le> 191"
    using assms by (simp_all add: is_cont_def word_le_nat_alt)
  note a = arith_2 [OF r unat_cp2 [of b0 b1]]
  from a have "map unat (utf8_encode (cp2 b0 b1)) = map unat [b0, b1]"
    by (simp add: encode_2)
  then show ?thesis by (rule bytes_eqI)
qed

lemma roundtrip_3:
  assumes "0xE0 \<le> b0" "b0 \<le> 0xEF" "second_of_3 b0 b1" "is_cont b2"
  shows "utf8_encode (cp3 b0 b1 b2) = [b0, b1, b2]"
proof -
  have r: "224 \<le> unat b0" "unat b0 \<le> 239" "128 \<le> unat b2" "unat b2 \<le> 191"
    using assms by (simp_all add: is_cont_def word_le_nat_alt)
  have s: "128 \<le> unat b1" "unat b1 \<le> 191" "unat b0 = 224 \<longrightarrow> 160 \<le> unat b1"
    using assms(3)
    by (auto simp: second_of_3_def is_cont_def word_le_nat_alt word_unat_eq_iff
             split: if_splits)
  note a = arith_3 [OF r(1,2) s(1,2) r(3,4) s(3) unat_cp3 [of b0 b1 b2]]
  from a have "map unat (utf8_encode (cp3 b0 b1 b2)) = map unat [b0, b1, b2]"
    by (simp add: encode_3)
  then show ?thesis by (rule bytes_eqI)
qed

lemma roundtrip_4:
  assumes "0xF0 \<le> b0" "b0 \<le> 0xF4" "second_of_4 b0 b1" "is_cont b2" "is_cont b3"
  shows "utf8_encode (cp4 b0 b1 b2 b3) = [b0, b1, b2, b3]"
proof -
  have r: "240 \<le> unat b0" "unat b0 \<le> 244" "128 \<le> unat b2" "unat b2 \<le> 191"
    "128 \<le> unat b3" "unat b3 \<le> 191"
    using assms by (simp_all add: is_cont_def word_le_nat_alt)
  have s: "128 \<le> unat b1" "unat b1 \<le> 191" "unat b0 = 240 \<longrightarrow> 144 \<le> unat b1"
    using assms(3)
    by (auto simp: second_of_4_def is_cont_def word_le_nat_alt word_unat_eq_iff
             split: if_splits)
  note a = arith_4 [OF r(1,2) s(1,2) r(3-6) s(3) unat_cp4 [of b0 b1 b2 b3]]
  from a have "map unat (utf8_encode (cp4 b0 b1 b2 b3)) = map unat [b0, b1, b2, b3]"
    by (simp add: encode_4)
  then show ?thesis by (rule bytes_eqI)
qed

subsection \<open>The shape of a well-formed buffer\<close>

lemma wf_cases:
  assumes "well_formed_utf8 (b0 # bs)"
  obtains
    (one) "b0 < 0x80" "well_formed_utf8 bs"
  | (two) b1 r where "0xC2 \<le> b0" "b0 \<le> 0xDF" "bs = b1 # r" "is_cont b1" "well_formed_utf8 r"
  | (three) b1 b2 r where "0xE0 \<le> b0" "b0 \<le> 0xEF" "bs = b1 # b2 # r"
      "second_of_3 b0 b1" "is_cont b2" "well_formed_utf8 r"
  | (four) b1 b2 b3 r where "0xF0 \<le> b0" "b0 \<le> 0xF4" "bs = b1 # b2 # b3 # r"
      "second_of_4 b0 b1" "is_cont b2" "is_cont b3" "well_formed_utf8 r"
  using assms by (auto split: if_splits list.splits)

lemma decode_step:
  "extract_one_codepoint (b # bs) = Returned ci \<Longrightarrow>
   decode_all (drop (unat (byte_count ci)) (b # bs)) = Some (Returned cis) \<Longrightarrow>
   decode_all (b # bs) = Some (Returned (ci # cis))"
  by (subst decode_all.simps) (simp add: prepend_def)

subsection \<open>What a decoder step can do\<close>


















section \<open>The round trip\<close>

text \<open>
  C3. For every well-formed UTF-8 buffer, applying the decoder again and again ends with
  a sequence of codepoints and consumed-byte counts such that encoding each codepoint
  as UTF-8 and joining the results gives the bytes of the buffer back, exactly; the
  counts add up to the length of the buffer, and each count is the length of the
  encoding of its codepoint.
\<close>

theorem utf8_roundtrip:
  "well_formed_utf8 buf \<Longrightarrow>
   \<exists>cis. decode_all buf = Some (Returned cis) \<and> reencode cis = buf \<and>
         consumed cis = length buf \<and>
         list_all (\<lambda>ci. length (utf8_encode (codepoint ci)) = unat (byte_count ci)) cis"
proof (induction "length buf" arbitrary: buf rule: less_induct)
  case less
  let ?ok = "list_all (\<lambda>ci. length (utf8_encode (codepoint ci)) = unat (byte_count ci))"
  show ?case
  proof (cases buf)
    case Nil
    then show ?thesis
      by (simp add: decode_all.simps reencode_def consumed_def)
  next
    case (Cons b0 bs)
    from less.prems Cons have wf: "well_formed_utf8 (b0 # bs)" by simp
    from wf show ?thesis
    proof (cases rule: wf_cases)
      case one
      have ex: "extract_one_codepoint (b0 # bs) =
                  Returned \<lparr>codepoint = ucast b0, byte_count = 1\<rparr>"
        using one(1) by (simp add: extract_1 word_less_nat_alt)
      from less.hyps [of bs] one(2) Cons obtain cis where
        cis: "decode_all bs = Some (Returned cis)" "reencode cis = bs"
          "consumed cis = length bs" "?ok cis"
        by auto
      have "decode_all (b0 # bs) =
              Some (Returned (\<lparr>codepoint = ucast b0, byte_count = 1\<rparr> # cis))"
        using cis(1) by (intro decode_step [OF ex]) simp
      then show ?thesis
        using cis(2,3,4) roundtrip_1 [OF one(1)] Cons
        by (simp add: reencode_def consumed_def)
    next
      case (two b1 r)
      have ex: "extract_one_codepoint (b0 # b1 # r) =
                  Returned \<lparr>codepoint = cp2 b0 b1, byte_count = 2\<rparr>"
        using two(1,2) by (simp add: extract_2 word_le_nat_alt)
      from less.hyps [of r] two Cons obtain cis where
        cis: "decode_all r = Some (Returned cis)" "reencode cis = r"
          "consumed cis = length r" "?ok cis"
        by auto
      have "decode_all (b0 # b1 # r) =
              Some (Returned (\<lparr>codepoint = cp2 b0 b1, byte_count = 2\<rparr> # cis))"
        using cis(1) by (intro decode_step [OF ex]) simp
      then show ?thesis
        using cis(2,3,4) roundtrip_2 [OF two(1,2,4)] Cons two(3)
        by (simp add: reencode_def consumed_def)
    next
      case (three b1 b2 r)
      have ex: "extract_one_codepoint (b0 # b1 # b2 # r) =
                  Returned \<lparr>codepoint = cp3 b0 b1 b2, byte_count = 3\<rparr>"
        using three(1,2) by (simp add: extract_3 word_le_nat_alt)
      from less.hyps [of r] three Cons obtain cis where
        cis: "decode_all r = Some (Returned cis)" "reencode cis = r"
          "consumed cis = length r" "?ok cis"
        by auto
      have "decode_all (b0 # b1 # b2 # r) =
              Some (Returned (\<lparr>codepoint = cp3 b0 b1 b2, byte_count = 3\<rparr> # cis))"
        using cis(1) by (intro decode_step [OF ex]) simp
      then show ?thesis
        using cis(2,3,4) roundtrip_3 [OF three(1,2,4,5)] Cons three(3)
        by (simp add: reencode_def consumed_def)
    next
      case (four b1 b2 b3 r)
      have ex: "extract_one_codepoint (b0 # b1 # b2 # b3 # r) =
                  Returned \<lparr>codepoint = cp4 b0 b1 b2 b3, byte_count = 4\<rparr>"
        using four(1,2) by (simp add: extract_4 word_le_nat_alt)
      from less.hyps [of r] four Cons obtain cis where
        cis: "decode_all r = Some (Returned cis)" "reencode cis = r"
          "consumed cis = length r" "?ok cis"
        by auto
      have "decode_all (b0 # b1 # b2 # b3 # r) =
              Some (Returned (\<lparr>codepoint = cp4 b0 b1 b2 b3, byte_count = 4\<rparr> # cis))"
        using cis(1) by (intro decode_step [OF ex]) simp
      then show ?thesis
        using cis(2,3,4) roundtrip_4 [OF four(1,2,4,5,6)] Cons four(3)
        by (simp add: reencode_def consumed_def)
    qed
  qed
qed

text \<open>
  The theorem at the ten bytes of \<^verbatim>\<open>A\<close>, \<^verbatim>\<open>U+00E9\<close>, \<^verbatim>\<open>U+20AC\<close> and
  \<^verbatim>\<open>U+1F600\<close>: one sequence of each width.
\<close>

theorem utf8_roundtrip_witness:
  "well_formed_utf8 [0x41, 0xC3, 0xA9, 0xE2, 0x82, 0xAC, 0xF0, 0x9F, 0x98, 0x80] \<and>
   (\<exists>cis. decode_all [0x41, 0xC3, 0xA9, 0xE2, 0x82, 0xAC, 0xF0, 0x9F, 0x98, 0x80] =
            Some (Returned cis) \<and>
          reencode cis = [0x41, 0xC3, 0xA9, 0xE2, 0x82, 0xAC, 0xF0, 0x9F, 0x98, 0x80] \<and>
          consumed cis = 10)"
proof -
  have wf: "well_formed_utf8 [0x41, 0xC3, 0xA9, 0xE2, 0x82, 0xAC, 0xF0, 0x9F, 0x98, 0x80]"
    by (simp add: is_cont_def second_of_3_def second_of_4_def)
  from utf8_roundtrip [OF wf] wf show ?thesis by auto
qed

end
